theory Spec2Isabelle
  imports Main "HOL-Library.Word"
begin

section \<open>Strings and insertion-ordered maps of the host language\<close>

text \<open>
  A string of the source is a sequence of UTF-16 code units: \<open>length\<close> is the source's
  \<open>.length\<close> and \<open>take 200\<close> is \<open>substring(0, 200)\<close>. String literals of the source are
  written out as their code units. Class names, tag names and the provider's source tag
  are plain ASCII and are kept as \<open>string\<close>.
\<close>

type_synonym jsstring = "16 word list"

text \<open>
  The code units that \<open>String.prototype.trim\<close> removes: the WhiteSpace and LineTerminator
  productions of the language (all of them lie in the Basic Multilingual Plane).
\<close>

definition isWhiteSpace :: "16 word \<Rightarrow> bool" where
  "isWhiteSpace c =
     (c = 0x9 \<or> c = 0xA \<or> c = 0xB \<or> c = 0xC \<or> c = 0xD \<or> c = 0x20 \<or> c = 0xA0 \<or>
      c = 0x1680 \<or> (0x2000 \<le> c \<and> c \<le> 0x200A) \<or> c = 0x2028 \<or> c = 0x2029 \<or>
      c = 0x202F \<or> c = 0x205F \<or> c = 0x3000 \<or> c = 0xFEFF)"

definition trim :: "jsstring \<Rightarrow> jsstring" where
  "trim s = rev (dropWhile isWhiteSpace (rev (dropWhile isWhiteSpace s)))"

text \<open>
  \<open>Map<K, V>\<close> iterates in insertion order, so it is an association list, oldest
  insertion first. \<open>set\<close> on a key that is present replaces the value where the key
  stands; on a new key it appends. \<open>keys().next().value\<close> is the first key, or
  \<open>undefined\<close> (\<open>None\<close>) on an empty map.
\<close>

type_synonym ('k, 'v) jsmap = "('k \<times> 'v) list"

definition Map_get :: "('k, 'v) jsmap \<Rightarrow> 'k \<Rightarrow> 'v option" where
  "Map_get m k = map_of m k"

fun Map_set :: "('k, 'v) jsmap \<Rightarrow> 'k \<Rightarrow> 'v \<Rightarrow> ('k, 'v) jsmap" where
  "Map_set [] k v = [(k, v)]"
| "Map_set ((k', v') # m) k v =
     (if k' = k then (k, v) # m else (k', v') # Map_set m k v)"

definition Map_delete :: "('k, 'v) jsmap \<Rightarrow> 'k \<Rightarrow> ('k, 'v) jsmap" where
  "Map_delete m k = filter (\<lambda>kv. fst kv \<noteq> k) m"

definition Map_size :: "('k, 'v) jsmap \<Rightarrow> nat" where
  "Map_size m = length m"

definition Map_first_key :: "('k, 'v) jsmap \<Rightarrow> 'k option" where
  "Map_first_key m = (case m of [] \<Rightarrow> None | kv # _ \<Rightarrow> Some (fst kv))"

definition Map_keys :: "('k, 'v) jsmap \<Rightarrow> 'k list" where
  "Map_keys m = map fst m"

section \<open>AITranslationProvider\<close>

subsection \<open>Data\<close>

record translation_entry =
  explain :: jsstring
  source :: string

record 'a cache_entry =
  data :: 'a
  timestamp :: int
  ttl :: int

text \<open>
  The provider's fields that \<open>getMeaning\<close> reads or writes. \<open>cacheTTL\<close> is
  \<open>API_CONSTANTS.AI_TRANSLATION_CACHE_TTL\<close>, a constant of a module that is not among the
  sources; it stays a field of the state. \<open>sent\<close> is not a field of the class: it logs the
  prompts handed to \<open>UniversalApiService.call\<close>, so that network calls can be counted.
\<close>

record provider =
  apiKey :: jsstring
  cache :: "(jsstring, translation_entry cache_entry) jsmap"
  cacheTTL :: int
  sent :: "jsstring list"

text \<open>
  What the provider imports and the sources do not define: the host's
  \<open>String.prototype.toLowerCase\<close> (full Unicode case mapping) and
  \<open>cleanMarkdownFromResponse\<close> of \<open>@/src/utils\<close>, where \<open>None\<close> stands for a thrown
  exception.
\<close>

record host =
  toLowerCase :: "jsstring \<Rightarrow> jsstring"
  cleanMarkdownFromResponse :: "jsstring \<Rightarrow> jsstring option"

text \<open>The object \<open>UniversalApiService.call\<close> resolves to, or the rejection it throws
  (\<open>Some\<close> message when the thrown value is an \<open>Error\<close>).\<close>

record api_result =
  success :: bool
  content :: "jsstring option"
  error :: "jsstring option"

datatype api_outcome = Returns api_result | Throws "jsstring option"

text \<open>The environment of one \<open>getMeaning\<close> call: \<open>Date.now()\<close> as \<open>getFromCache\<close> reads
  it, the outcome of the network call if one is issued, and \<open>Date.now()\<close> as \<open>setCache\<close>
  reads it.\<close>

record call_env =
  now_lookup :: int
  response :: api_outcome
  now_store :: int

text \<open>\<open>AITranslationResult\<close>: \<open>{success: true, data, cached}\<close> or \<open>{success: false, error}\<close>.\<close>

datatype translation_result = Ok translation_entry bool | Err jsstring

subsection \<open>Message literals\<close>

definition ERR_INVALID_WORD :: jsstring where
  "ERR_INVALID_WORD = [0x5355, 0x8BCD, 0x53C2, 0x6570, 0x65E0, 0x6548]"

definition ERR_MISSING_API_KEY :: jsstring where
  "ERR_MISSING_API_KEY =
     [0x41, 0x49, 0x20, 0x41, 0x50, 0x49, 0x914D, 0x7F6E, 0x4E0D, 0x5B8C, 0x6574, 0xFF1A,
      0x7F3A, 0x5C11, 0x41, 0x50, 0x49, 0x20, 0x4B, 0x65, 0x79]"

definition ERR_REQUEST_FAILED :: jsstring where
  "ERR_REQUEST_FAILED = [0x41, 0x49, 0x7FFB, 0x8BD1, 0x8BF7, 0x6C42, 0x5931, 0x8D25]"

definition ERR_UNKNOWN :: jsstring where
  "ERR_UNKNOWN = [0x672A, 0x77E5, 0x9519, 0x8BEF]"

definition MEANING_UNAVAILABLE :: jsstring where
  "MEANING_UNAVAILABLE = [0x20, 0x7684, 0x91CA, 0x4E49, 0x6682, 0x4E0D, 0x53EF, 0x7528]"

definition ELLIPSIS :: jsstring where
  "ELLIPSIS = [0x2E, 0x2E, 0x2E]"

subsection \<open>The cache\<close>

definition getFromCache ::
  "int \<Rightarrow> provider \<Rightarrow> jsstring \<Rightarrow> translation_entry option \<times> provider" where
  "getFromCache now p word =
     (case Map_get (cache p) word of
        Some entry \<Rightarrow>
          if now - timestamp entry < ttl entry then (Some (data entry), p)
          else (None, p\<lparr>cache := Map_delete (cache p) word\<rparr>)
      | None \<Rightarrow> (None, p))"

definition setCache :: "int \<Rightarrow> provider \<Rightarrow> jsstring \<Rightarrow> translation_entry \<Rightarrow> provider" where
  "setCache now p word d =
     (let c = Map_set (cache p) word \<lparr>data = d, timestamp = now, ttl = cacheTTL p\<rparr>
      in if Map_size c > 500 then
           (case Map_first_key c of
              Some oldestKey \<Rightarrow>
                if oldestKey \<noteq> [] then p\<lparr>cache := Map_delete c oldestKey\<rparr>
                else p\<lparr>cache := c\<rparr>
            | None \<Rightarrow> p\<lparr>cache := c\<rparr>)
         else p\<lparr>cache := c\<rparr>)"

subsection \<open>Parsing the response and \<open>getMeaning\<close>\<close>

definition placeholder :: "jsstring \<Rightarrow> translation_entry" where
  "placeholder word = \<lparr>explain = word @ MEANING_UNAVAILABLE, source = ''ai-translation''\<rparr>"

definition parseAIResponse :: "host \<Rightarrow> jsstring option \<Rightarrow> jsstring \<Rightarrow> translation_entry" where
  "parseAIResponse h c word =
     (let explain0 = (case c of None \<Rightarrow> [] | Some s \<Rightarrow> trim s)
      in if explain0 = [] then placeholder word
         else (case cleanMarkdownFromResponse h explain0 of
                 None \<Rightarrow> placeholder word
               | Some e \<Rightarrow>
                   \<lparr>explain = (if length e > 200 then take 200 e @ ELLIPSIS else e),
                    source = ''ai-translation''\<rparr>))"

definition cleanWord :: "host \<Rightarrow> jsstring \<Rightarrow> jsstring" where
  "cleanWord h word = trim (toLowerCase h word)"

definition getMeaning ::
  "host \<Rightarrow> call_env \<Rightarrow> provider \<Rightarrow> jsstring option \<Rightarrow> translation_result \<times> provider" where
  "getMeaning h env p word =
     (case word of
        None \<Rightarrow> (Err ERR_INVALID_WORD, p)
      | Some w \<Rightarrow>
          if w = [] then (Err ERR_INVALID_WORD, p)
          else
            (case getFromCache (now_lookup env) p (cleanWord h w) of
               (Some cached, p1) \<Rightarrow> (Ok cached True, p1)
             | (None, p1) \<Rightarrow>
                 if apiKey p1 = [] then (Err ERR_MISSING_API_KEY, p1)
                 else
                   (let p2 = p1\<lparr>sent := sent p1 @ [cleanWord h w]\<rparr>
                    in case response env of
                         Throws msg \<Rightarrow>
                           (Err (case msg of Some m \<Rightarrow> m | None \<Rightarrow> ERR_UNKNOWN), p2)
                       | Returns r \<Rightarrow>
                           if \<not> success r then
                             (Err (case error r of
                                     Some e \<Rightarrow> if e = [] then ERR_REQUEST_FAILED else e
                                   | None \<Rightarrow> ERR_REQUEST_FAILED), p2)
                           else
                             (let meaningInfo = parseAIResponse h (content r) (cleanWord h w)
                              in (Ok meaningInfo False,
                                  setCache (now_store env) p2 (cleanWord h w) meaningInfo)))))"

subsection \<open>Sequences of calls\<close>

text \<open>A run of \<open>setCache\<close> calls, each with the clock value it reads, the key and the
  entry.\<close>

fun setCaches :: "provider \<Rightarrow> (int \<times> jsstring \<times> translation_entry) list \<Rightarrow> provider" where
  "setCaches p [] = p"
| "setCaches p ((now, word, d) # rest) = setCaches (setCache now p word d) rest"

text \<open>Cache operations interleaved between a store and a later read.\<close>

datatype cache_op = SetOp int jsstring translation_entry | GetOp int jsstring

fun run_op :: "provider \<Rightarrow> cache_op \<Rightarrow> provider" where
  "run_op p (SetOp now word d) = setCache now p word d"
| "run_op p (GetOp now word) = snd (getFromCache now p word)"

fun run_ops :: "provider \<Rightarrow> cache_op list \<Rightarrow> provider" where
  "run_ops p [] = p"
| "run_ops p (x # xs) = run_ops (run_op p x) xs"

fun stores_to :: "jsstring \<Rightarrow> cache_op \<Rightarrow> bool" where
  "stores_to w (SetOp now word d) = (word = w)"
| "stores_to w (GetOp now word) = False"


text \<open>
  A host for concrete inputs: \<open>toLowerCase\<close> on Basic Latin letters (every other code
  unit is kept), and a \<open>cleanMarkdownFromResponse\<close> that finds nothing to strip.
\<close>

definition asciiLower :: "jsstring \<Rightarrow> jsstring" where
  "asciiLower s = map (\<lambda>c. if 0x41 \<le> c \<and> c \<le> 0x5A then c + 0x20 else c) s"

definition ascii_host :: host where
  "ascii_host = \<lparr>toLowerCase = asciiLower, cleanMarkdownFromResponse = Some\<rparr>"

section \<open>TooltipRenderer\<close>

subsection \<open>Markup\<close>

text \<open>
  The renderer returns markup as a string and the page parses it into nodes. The template
  literals are kept as the trees they parse to: an element has a tag, its class names, its
  other attributes, the \<open>display\<close> of its inline style, and its children; the fixed text
  of a template is a \<open>Text\<close> node. A \<open>${...}\<close> interpolation is inserted into the markup as
  it is, so it is kept as a \<open>Raw\<close> leaf that is not looked into.
\<close>

datatype node =
    Element string "string list" "(string \<times> jsstring) list" "string option" "node list"
  | Text jsstring
  | Raw jsstring

fun kids :: "node \<Rightarrow> node list" where
  "kids (Element t cs ats d ch) = ch"
| "kids (Text s) = []"
| "kids (Raw s) = []"


text \<open>The number of elements of a forest, at any depth, that carry a class.\<close>

fun countClass :: "string \<Rightarrow> node list \<Rightarrow> nat" where
  "countClass k [] = 0"
| "countClass k (Element t cs ats d ch # ns) =
     (if k \<in> set cs then 1 else 0) + countClass k ch + countClass k ns"
| "countClass k (Text s # ns) = countClass k ns"
| "countClass k (Raw s # ns) = countClass k ns"

text \<open>\<open>parent.querySelector('.k')\<close> on the children of \<open>parent\<close>: the first element in
  document order (an element before its descendants, those before its later siblings).\<close>

fun querySelector :: "string \<Rightarrow> node list \<Rightarrow> node option" where
  "querySelector k [] = None"
| "querySelector k (Element t cs ats d ch # ns) =
     (if k \<in> set cs then Some (Element t cs ats d ch)
      else (case querySelector k ch of
              Some n \<Rightarrow> Some n
            | None \<Rightarrow> querySelector k ns))"
| "querySelector k (Text s # ns) = querySelector k ns"
| "querySelector k (Raw s # ns) = querySelector k ns"






subsection \<open>Data and text literals\<close>

record phonetic_error =
  hasPhoneticError :: bool
  phoneticErrorMessage :: "jsstring option"

text \<open>\<open>PhoneticInfo\<close>, as far as the renderer reads it: the \<open>text\<close> of each entry of
  \<open>phonetics\<close>, \<open>aiTranslation\<close> and \<open>error\<close>.\<close>

record phonetic_info =
  phonetics :: "jsstring list"
  aiTranslation :: "translation_entry option"
  phoneticError :: "phonetic_error option"

record element_data =
  ed_word :: jsstring
  ed_phonetic :: "phonetic_info option"

text \<open>
  The renderer's \<open>uiConfig.showPlayButton\<close>, and what it imports and the sources do not
  define: the icons \<open>SVG_ICONS.SPEAKER\<close> and \<open>SVG_ICONS.SPEAKER_SMALL\<close>, and
  \<open>DOMUtils.extractWords\<close>.
\<close>

record renderer =
  showPlayButton :: bool
  SPEAKER :: jsstring
  SPEAKER_SMALL :: jsstring
  extractWords :: "jsstring \<Rightarrow> jsstring list"

definition LOADING_PHONETIC :: jsstring where
  "LOADING_PHONETIC = [0x83B7, 0x53D6, 0x97F3, 0x6807, 0x4E2D, 0x2E, 0x2E, 0x2E]"

definition LOADING_MEANING :: jsstring where
  "LOADING_MEANING = [0x83B7, 0x53D6, 0x8BCD, 0x4E49, 0x4E2D, 0x2E, 0x2E, 0x2E]"

definition TITLE_READ :: jsstring where
  "TITLE_READ = [0x6717, 0x8BFB]"

definition TITLE_READ_WORD :: jsstring where
  "TITLE_READ_WORD = [0x6717, 0x8BFB, 0x5355, 0x8BCD]"

definition PHONETIC_FAILED :: jsstring where
  "PHONETIC_FAILED = [0x97F3, 0x6807, 0x83B7, 0x53D6, 0x5931, 0x8D25]"

definition UNDEFINED :: jsstring where
  "UNDEFINED = [0x75, 0x6E, 0x64, 0x65, 0x66, 0x69, 0x6E, 0x65, 0x64]"

definition ACCENT_UK :: jsstring where
  "ACCENT_UK = [0x82F1]"

definition ACCENT_US :: jsstring where
  "ACCENT_US = [0x7F8E]"

definition TITLE_UK :: jsstring where
  "TITLE_UK = [0x82F1, 0x5F0F, 0x53D1, 0x97F3]"

definition TITLE_US :: jsstring where
  "TITLE_US = [0x7F8E, 0x5F0F, 0x53D1, 0x97F3]"

subsection \<open>Building the markup\<close>

text \<open>
  Modelled from the spec: \<open>DOMUtils.createInteractiveWordList\<close> is not among the sources.
  The spec says that a phrase is rendered as an interactive list of per-word
  sub-tooltips, one interactive entry per token; the entry of a token is taken to be an
  element that carries the token as an attribute and shows it. The tag, class and
  attribute names of an entry are chosen here.
\<close>

definition interactiveWordEntry :: "jsstring \<Rightarrow> node" where
  "interactiveWordEntry w =
     Element ''span'' [''wxt-interactive-word''] [(''data-word'', w)] None [Raw w]"

definition createInteractiveWordList :: "jsstring list \<Rightarrow> node list" where
  "createInteractiveWordList words = map interactiveWordEntry words"

definition playButton :: "renderer \<Rightarrow> jsstring \<Rightarrow> node list" where
  "playButton r title =
     (if showPlayButton r
      then [Element ''button'' [''wxt-audio-btn''] [(''title'', title)] None [Raw (SPEAKER r)]]
      else [])"

definition createPhraseTooltipHTML :: "renderer \<Rightarrow> jsstring \<Rightarrow> jsstring list \<Rightarrow> node" where
  "createPhraseTooltipHTML r phrase words =
     (let interactiveWordList = createInteractiveWordList words
      in Element ''div'' [''wxt-tooltip-card''] [] None
           [Element ''div'' [''wxt-tooltip-header''] [] None
              (Element ''div'' [''wxt-word-info''] [] None
                 [Element ''div'' [''wxt-phrase-text''] [] None [Raw phrase]]
               # playButton r TITLE_READ),
            Element ''div'' [''wxt-tooltip-body''] [] None
              [Element ''div'' [''wxt-phrase-words''] [] None interactiveWordList],
            Element ''div'' [''wxt-tooltip-arrow''] [] None []])"

definition createWordTooltipHTML :: "renderer \<Rightarrow> element_data \<Rightarrow> node" where
  "createWordTooltipHTML r elementData =
     (let phoneticText =
            (case ed_phonetic elementData of
               None \<Rightarrow> []
             | Some ph \<Rightarrow> (case phonetics ph of [] \<Rightarrow> [] | t # _ \<Rightarrow> t));
          aiTr = (case ed_phonetic elementData of None \<Rightarrow> None | Some ph \<Rightarrow> aiTranslation ph);
          err = (case ed_phonetic elementData of None \<Rightarrow> None | Some ph \<Rightarrow> phoneticError ph);
          hasErr = (case err of None \<Rightarrow> False | Some e \<Rightarrow> hasPhoneticError e);
          errMessage = (case err of None \<Rightarrow> None | Some e \<Rightarrow> phoneticErrorMessage e);
          phoneticDisplay =
            Element ''div'' [''wxt-phonetic-row''] [] None
              [if phoneticText \<noteq> [] then
                 Element ''div'' [''wxt-phonetic-text''] [] None [Raw phoneticText]
               else if hasErr then
                 Element ''div'' [''wxt-phonetic-error''] [] None
                   [Raw (case errMessage of None \<Rightarrow> UNDEFINED | Some m \<Rightarrow> m)]
               else
                 Element ''div'' [''wxt-phonetic-loading''] [] None [Text LOADING_PHONETIC]]
      in Element ''div'' [''wxt-tooltip-card''] [] None
           [Element ''div'' [''wxt-tooltip-header''] [] None
              (Element ''div'' [''wxt-word-info''] [] None
                 [Element ''div'' [''wxt-word-main''] [] None [Raw (ed_word elementData)],
                  phoneticDisplay,
                  Element ''div'' [''wxt-meaning-container''] [] None
                    [case aiTr of
                       Some tr \<Rightarrow> Element ''div'' [''wxt-meaning-text''] [] None [Raw (explain tr)]
                     | None \<Rightarrow> Element ''div'' [''wxt-meaning-loading''] [] None [Text LOADING_MEANING]]]
               # playButton r TITLE_READ_WORD),
            Element ''div'' [''wxt-tooltip-arrow''] [] None []])"

definition createMainTooltipHTML :: "renderer \<Rightarrow> element_data \<Rightarrow> node" where
  "createMainTooltipHTML r elementData =
     (let words = extractWords r (ed_word elementData)
      in if length words > 1 then createPhraseTooltipHTML r (ed_word elementData) words
         else createWordTooltipHTML r elementData)"

text \<open>The optional parameters of \<open>createNestedWordTooltipHTML\<close> are \<open>None\<close> when they are
  left out; \<open>hasError\<close> is its truth value.\<close>

definition accentGroup :: "renderer \<Rightarrow> jsstring \<Rightarrow> jsstring \<Rightarrow> jsstring \<Rightarrow> node" where
  "accentGroup r label accent title =
     Element ''div'' [''wxt-accent-group''] [] None
       [Element ''span'' [''wxt-accent-label''] [] None [Text label],
        Element ''button'' [''wxt-accent-audio-btn''] [(''data-accent'', accent), (''title'', title)]
          None [Raw (SPEAKER_SMALL r)]]"

definition createNestedWordTooltipHTML ::
  "renderer \<Rightarrow> jsstring \<Rightarrow> jsstring option \<Rightarrow> bool \<Rightarrow> jsstring option \<Rightarrow> node" where
  "createNestedWordTooltipHTML r w phoneticText hasError errorMessage =
     (let pending =
            (if hasError then
               Element ''div'' [''wxt-phonetic-error''] [] None
                 [Raw (case errorMessage of
                         None \<Rightarrow> PHONETIC_FAILED
                       | Some msg \<Rightarrow> if msg = [] then PHONETIC_FAILED else msg)]
             else
               Element ''div'' [''wxt-phonetic-loading''] [] None [Text LOADING_PHONETIC]);
          phoneticDisplay =
            (case phoneticText of
               None \<Rightarrow> pending
             | Some ph \<Rightarrow>
                 if ph \<noteq> [] then Element ''div'' [''wxt-phonetic-text''] [] None [Raw ph]
                 else pending)
      in Element ''div'' [''wxt-word-tooltip-card''] [] None
           [Element ''div'' [''wxt-word-tooltip-header''] [] None
              [Element ''div'' [''wxt-word-info''] [] None
                 [Element ''div'' [''wxt-word-title-row''] [] None
                    [Element ''div'' [''wxt-word-main''] [] None [Raw w],
                     Element ''div'' [''wxt-accent-buttons''] [] None
                       [accentGroup r ACCENT_UK [0x75, 0x6B] TITLE_UK,
                        accentGroup r ACCENT_US [0x75, 0x73] TITLE_US]],
                  Element ''div'' [''wxt-phonetic-row''] [] None [phoneticDisplay],
                  Element ''div'' [''wxt-meaning-container''] [] None
                    [Element ''div'' [''wxt-meaning-loading''] [] None [Text LOADING_MEANING]]]]])"

subsection \<open>Patching a rendered tooltip\<close>



text \<open>A splitter for concrete inputs: the maximal runs of code units that are not
  white space.\<close>

fun splitWords :: "jsstring \<Rightarrow> jsstring \<Rightarrow> jsstring list" where
  "splitWords acc [] = (if acc = [] then [] else [acc])"
| "splitWords acc (c # s) =
     (if isWhiteSpace c then (if acc = [] then splitWords [] s else acc # splitWords [] s)
      else splitWords (acc @ [c]) s)"

definition plain_renderer :: renderer where
  "plain_renderer =
     \<lparr>showPlayButton = True, SPEAKER = [], SPEAKER_SMALL = [], extractWords = splitWords []\<rparr>"

section \<open>The background script: validate-configuration\<close>









section \<open>Properties of the map operations\<close>

lemma Map_set_length:
  "length (Map_set m k v) = (if k \<in> set (map fst m) then length m else Suc (length m))"
  by (induction m) force+

lemma Map_set_new: "k \<notin> set (map fst m) \<Longrightarrow> Map_set m k v = m @ [(k, v)]"
  by (induction m) auto

lemma Map_keys_set:
  "Map_keys (Map_set m k v) = (if k \<in> set (Map_keys m) then Map_keys m else Map_keys m @ [k])"
  unfolding Map_keys_def by (induction m) force+

lemma Map_get_set_same: "Map_get (Map_set m k v) k = Some v"
  by (induction m) (auto simp: Map_get_def)

lemma Map_get_set_other: "k' \<noteq> k \<Longrightarrow> Map_get (Map_set m k v) k' = Map_get m k'"
  by (induction m) (auto simp: Map_get_def)

lemma Map_get_delete_same: "Map_get (Map_delete m k) k = None"
  by (induction m) (auto simp: Map_get_def Map_delete_def)

lemma Map_get_delete_other: "k' \<noteq> k \<Longrightarrow> Map_get (Map_delete m k) k' = Map_get m k'"
  by (induction m) (auto simp: Map_get_def Map_delete_def)


lemma Map_keys_delete: "Map_keys (Map_delete m k) = removeAll k (Map_keys m)"
  by (induction m) (auto simp: Map_keys_def Map_delete_def)

lemma Map_set_nonempty: "Map_set m k v \<noteq> []"
  by (cases m) (auto split: if_splits)

lemma Map_first_key_set:
  "Map_first_key (Map_set m k v) = (case m of [] \<Rightarrow> Some k | kv # _ \<Rightarrow> Some (fst kv))"
  by (cases m) (auto simp: Map_first_key_def)

section \<open>The size cap of the cache\<close>

text \<open>
  \<open>setCache\<close> guards the eviction with \<open>if (oldestKey)\<close>, which is false for the empty
  string as well as for \<open>undefined\<close>. While the empty string is the oldest key, a store of
  a new key only appends.
\<close>

lemma setCache_stuck:
  assumes "Map_first_key (cache p) = Some []" and "w \<notin> set (Map_keys (cache p))"
  shows "cache (setCache now p w d) =
           cache p @ [(w, \<lparr>data = d, timestamp = now, ttl = cacheTTL p\<rparr>)]"
proof -
  from assms(1) obtain kv rest where c: "cache p = kv # rest" and k: "fst kv = []"
    by (auto simp: Map_first_key_def split: list.splits)
  from assms(2) have "Map_set (cache p) w \<lparr>data = d, timestamp = now, ttl = cacheTTL p\<rparr> =
      cache p @ [(w, \<lparr>data = d, timestamp = now, ttl = cacheTTL p\<rparr>)]"
    by (simp add: Map_set_new Map_keys_def)
  then show ?thesis using c k
    by (simp add: setCache_def Let_def Map_first_key_def)
qed

lemma setCache_cacheTTL: "cacheTTL (setCache now p w d) = cacheTTL p"
  by (simp add: setCache_def Let_def split: option.splits)

lemma setCaches_stuck:
  "Map_first_key (cache p) = Some [] \<Longrightarrow> distinct (map (\<lambda>x. fst (snd x)) ops) \<Longrightarrow>
   set (map (\<lambda>x. fst (snd x)) ops) \<inter> set (Map_keys (cache p)) = {} \<Longrightarrow>
   Map_keys (cache (setCaches p ops)) = Map_keys (cache p) @ map (\<lambda>x. fst (snd x)) ops"
proof (induction ops arbitrary: p)
  case Nil
  then show ?case by simp
next
  case (Cons x ops)
  obtain now w d where x: "x = (now, w, d)" by (cases x)
  let ?p = "setCache now p w d"
  have w: "w \<notin> set (Map_keys (cache p))" using Cons.prems(3) x by auto
  have c: "cache ?p = cache p @ [(w, \<lparr>data = d, timestamp = now, ttl = cacheTTL p\<rparr>)]"
    using setCache_stuck [OF Cons.prems(1) w] .
  have 1: "Map_first_key (cache ?p) = Some []"
    using Cons.prems(1) c by (auto simp: Map_first_key_def split: list.splits)
  have 2: "distinct (map (\<lambda>x. fst (snd x)) ops)" using Cons.prems(2) by simp
  have 3: "set (map (\<lambda>x. fst (snd x)) ops) \<inter> set (Map_keys (cache ?p)) = {}"
    using Cons.prems(2,3) x c by (auto simp: Map_keys_def)
  show ?case using Cons.IH [OF 1 2 3] x c by (simp add: Map_keys_def)
qed

lemma keys500_distinct: "distinct (map (\<lambda>n. replicate (Suc n) (0x61 :: 16 word)) [0..<500])"
proof -
  have "inj (\<lambda>n. replicate (Suc n) (0x61 :: 16 word))"
    by (rule injI) (metis length_replicate nat.inject)
  then show ?thesis by (simp add: distinct_map inj_on_def)
qed

text \<open>While no key is the empty string, a store keeps the cache within 500 entries, and
  a store of a new key into a full cache removes exactly the oldest entry.\<close>

lemma setCache_size_bound:
  assumes "[] \<notin> set (Map_keys (cache p))" and "w \<noteq> []" and "Map_size (cache p) \<le> 500"
  shows "Map_size (cache (setCache now p w d)) \<le> 500"
proof -
  let ?c = "Map_set (cache p) w \<lparr>data = d, timestamp = now, ttl = cacheTTL p\<rparr>"
  have len: "length ?c \<le> 501" using assms(3) by (simp add: Map_set_length Map_size_def)
  show ?thesis
  proof (cases "length ?c > 500")
    case False
    then show ?thesis by (simp add: setCache_def Let_def Map_size_def)
  next
    case True
    obtain kv rest where c: "?c = kv # rest" using Map_set_nonempty [of "cache p" w] by (cases ?c) auto
    have "fst kv \<in> set (Map_keys ?c)" using c by (simp add: Map_keys_def)
    then have ne: "fst kv \<noteq> []" using assms(1,2) by (auto simp: Map_keys_set split: if_splits)
    have "length (Map_delete ?c (fst kv)) < length ?c"
      unfolding Map_delete_def by (rule length_filter_less [of kv]) (simp_all add: c)
    then have "length (Map_delete ?c (fst kv)) \<le> 500" using len by simp
    then show ?thesis using True ne c
      by (simp add: setCache_def Let_def Map_size_def Map_first_key_def)
  qed
qed

lemma setCache_evicts_oldest:
  assumes "distinct (Map_keys (cache p))" and "[] \<notin> set (Map_keys (cache p))"
      and "Map_size (cache p) = 500" and "w \<notin> set (Map_keys (cache p))" and "w \<noteq> []"
  shows "cache (setCache now p w d) =
           tl (cache p) @ [(w, \<lparr>data = d, timestamp = now, ttl = cacheTTL p\<rparr>)]"
proof -
  let ?e = "\<lparr>data = d, timestamp = now, ttl = cacheTTL p\<rparr>"
  obtain kv rest where c: "cache p = kv # rest" using assms(3) by (cases "cache p") (auto simp: Map_size_def)
  have new: "Map_set (cache p) w ?e = kv # rest @ [(w, ?e)]"
    using assms(4) c by (simp add: Map_set_new Map_keys_def)
  have ne: "fst kv \<noteq> []" using assms(2) c by (auto simp: Map_keys_def)
  have a: "fst kv \<notin> fst ` set rest" and b: "w \<noteq> fst kv"
    using assms(1,4) c by (simp_all add: Map_keys_def)
  have "fst x \<noteq> fst kv" if "x \<in> set rest" for x
    using a that by (metis imageI)
  then have "\<forall>x \<in> set (rest @ [(w, ?e)]). fst x \<noteq> fst kv"
    using b by simp
  then have "filter (\<lambda>x. fst x \<noteq> fst kv) (rest @ [(w, ?e)]) = rest @ [(w, ?e)]"
    by (simp only: filter_id_conv)
  then have "Map_delete (kv # rest @ [(w, ?e)]) (fst kv) = rest @ [(w, ?e)]"
    by (simp add: Map_delete_def)
  then show ?thesis using assms(3) c new ne
    by (simp add: setCache_def Let_def Map_size_def Map_first_key_def)
qed

text \<open>
  C1 (the cache holds at most 500 entries after each store, and the 501st distinct key
  evicts the earliest-inserted one). On a fresh provider, storing the empty key and then
  the 500 distinct keys \<open>a\<close>, \<open>aa\<close>, \<open>aaa\<close>, ... leaves all 501 keys in the cache, the
  empty key still first: nothing is evicted and the size is 501.
\<close>

theorem setCache_empty_key_overflow:
  "Map_keys (cache (setCaches \<lparr>apiKey = [0x6B], cache = [], cacheTTL = 86400000, sent = []\<rparr>
      ((0, [], placeholder []) #
       map (\<lambda>n. (int n, replicate (Suc n) 0x61, placeholder [])) [0..<500]))) =
     [] # map (\<lambda>n. replicate (Suc n) 0x61) [0..<500] \<and>
   Map_size (cache (setCaches \<lparr>apiKey = [0x6B], cache = [], cacheTTL = 86400000, sent = []\<rparr>
      ((0, [], placeholder []) #
       map (\<lambda>n. (int n, replicate (Suc n) 0x61, placeholder [])) [0..<500]))) = 501"
proof -
  let ?p0 = "\<lparr>apiKey = [0x6B], cache = [], cacheTTL = 86400000, sent = []\<rparr>"
  let ?ops = "map (\<lambda>n. (int n, replicate (Suc n) (0x61 :: 16 word), placeholder [])) [0..<500]"
  let ?p1 = "setCache 0 ?p0 [] (placeholder [])"
  have c1: "cache ?p1 = [([], \<lparr>data = placeholder [], timestamp = 0, ttl = 86400000\<rparr>)]"
    by (simp add: setCache_def Map_size_def)
  have k: "map (\<lambda>x. fst (snd x)) ?ops = map (\<lambda>n. replicate (Suc n) (0x61 :: 16 word)) [0..<500]"
    by simp
  have "Map_keys (cache (setCaches ?p1 ?ops)) = Map_keys (cache ?p1) @ map (\<lambda>x. fst (snd x)) ?ops"
  proof (rule setCaches_stuck)
    show "Map_first_key (cache ?p1) = Some []" by (simp add: c1 Map_first_key_def)
    show "distinct (map (\<lambda>x. fst (snd x)) ?ops)" unfolding k by (rule keys500_distinct)
    show "set (map (\<lambda>x. fst (snd x)) ?ops) \<inter> set (Map_keys (cache ?p1)) = {}"
      unfolding k by (auto simp: c1 Map_keys_def)
  qed
  then have keys: "Map_keys (cache (setCaches ?p1 ?ops)) =
      [] # map (\<lambda>n. replicate (Suc n) (0x61 :: 16 word)) [0..<500]"
    by (simp add: c1 Map_keys_def)
  then have "length (Map_keys (cache (setCaches ?p1 ?ops))) = 501"
    by simp
  then have "Map_size (cache (setCaches ?p1 ?ops)) = 501"
    by (simp add: Map_size_def Map_keys_def)
  with keys show ?thesis by simp
qed

section \<open>Reading and writing the cache\<close>



lemma getFromCache_fresh:
  "Map_get (cache p) w = Some e \<Longrightarrow> now - timestamp e < ttl e \<Longrightarrow>
   getFromCache now p w = (Some (data e), p)"
  by (simp add: getFromCache_def)

lemma getFromCache_expired:
  "Map_get (cache p) w = Some e \<Longrightarrow> \<not> now - timestamp e < ttl e \<Longrightarrow>
   getFromCache now p w = (None, p\<lparr>cache := Map_delete (cache p) w\<rparr>)"
  by (simp add: getFromCache_def)

lemma getFromCache_absent:
  "Map_get (cache p) w = None \<Longrightarrow> getFromCache now p w = (None, p)"
  by (simp add: getFromCache_def)


lemma getFromCache_fields:
  "getFromCache now p w = (r, p') \<Longrightarrow>
   apiKey p' = apiKey p \<and> cacheTTL p' = cacheTTL p \<and> sent p' = sent p"
  by (auto simp: getFromCache_def split: option.splits if_splits)

lemma getFromCache_cache:
  "getFromCache now p w = (r, p') \<Longrightarrow>
   cache p' = cache p \<or> cache p' = Map_delete (cache p) w"
  by (auto simp: getFromCache_def split: option.splits if_splits)

lemma setCache_fields:
  "apiKey (setCache now p w d) = apiKey p \<and> cacheTTL (setCache now p w d) = cacheTTL p \<and>
   sent (setCache now p w d) = sent p"
  by (simp add: setCache_def Let_def split: option.splits)

text \<open>What a store does to the entry of a key: the stored key holds the new entry unless
  the eviction removed it, and another key keeps its entry unless it was evicted.\<close>

lemma setCache_cases:
  "cache (setCache now p w d) = Map_set (cache p) w \<lparr>data = d, timestamp = now, ttl = cacheTTL p\<rparr> \<or>
   (\<exists>k. Map_first_key (Map_set (cache p) w \<lparr>data = d, timestamp = now, ttl = cacheTTL p\<rparr>) = Some k \<and>
        cache (setCache now p w d) =
          Map_delete (Map_set (cache p) w \<lparr>data = d, timestamp = now, ttl = cacheTTL p\<rparr>) k)"
  by (simp add: setCache_def Let_def split: option.splits)

lemma setCache_get_same:
  "Map_get (cache (setCache now p w d)) w = None \<or>
   Map_get (cache (setCache now p w d)) w = Some \<lparr>data = d, timestamp = now, ttl = cacheTTL p\<rparr>"
proof -
  let ?c = "Map_set (cache p) w \<lparr>data = d, timestamp = now, ttl = cacheTTL p\<rparr>"
  from setCache_cases [of now p w d] show ?thesis
  proof
    assume "cache (setCache now p w d) = ?c"
    then show ?thesis by (simp add: Map_get_set_same)
  next
    assume "\<exists>k. Map_first_key ?c = Some k \<and> cache (setCache now p w d) = Map_delete ?c k"
    then obtain k where k: "cache (setCache now p w d) = Map_delete ?c k" by blast
    show ?thesis
      by (cases "k = w") (simp_all add: k Map_get_delete_same Map_get_delete_other Map_get_set_same)
  qed
qed

lemma setCache_get_other:
  assumes "k \<noteq> w"
  shows "Map_get (cache (setCache now p w d)) k = None \<or>
     Map_get (cache (setCache now p w d)) k = Map_get (cache p) k"
proof -
  let ?c = "Map_set (cache p) w \<lparr>data = d, timestamp = now, ttl = cacheTTL p\<rparr>"
  from setCache_cases [of now p w d] show ?thesis
  proof
    assume "cache (setCache now p w d) = ?c"
    then show ?thesis using assms by (simp add: Map_get_set_other)
  next
    assume "\<exists>k. Map_first_key ?c = Some k \<and> cache (setCache now p w d) = Map_delete ?c k"
    then obtain j where j: "cache (setCache now p w d) = Map_delete ?c j" by blast
    show ?thesis using assms
      by (cases "j = k") (simp_all add: j Map_get_delete_same Map_get_delete_other Map_get_set_other)
  qed
qed


lemma run_op_entry:
  assumes "\<not> stores_to w x"
      and "Map_get (cache p) w = None \<or> Map_get (cache p) w = Some e"
  shows "Map_get (cache (run_op p x)) w = None \<or> Map_get (cache (run_op p x)) w = Some e"
proof (cases x)
  case (SetOp now k d)
  then have "w \<noteq> k" using assms(1) by auto
  from setCache_get_other [OF this, of now p d] show ?thesis
    using assms(2) SetOp by auto
next
  case (GetOp now k)
  obtain r q where g: "getFromCache now p k = (r, q)" by (cases "getFromCache now p k")
  from getFromCache_cache [OF g] show ?thesis
  proof
    assume "cache q = cache p"
    then show ?thesis using assms(2) GetOp g by simp
  next
    assume "cache q = Map_delete (cache p) k"
    then show ?thesis using assms(2) GetOp g
      by (cases "k = w") (auto simp: Map_get_delete_same Map_get_delete_other)
  qed
qed

lemma run_ops_entry:
  "list_all (\<lambda>x. \<not> stores_to w x) ops \<Longrightarrow>
   Map_get (cache p) w = None \<or> Map_get (cache p) w = Some e \<Longrightarrow>
   Map_get (cache (run_ops p ops)) w = None \<or> Map_get (cache (run_ops p ops)) w = Some e"
proof (induction ops arbitrary: p)
  case Nil
  then show ?case by simp
next
  case (Cons x xs)
  from Cons.prems(1) have x: "\<not> stores_to w x" and xs: "list_all (\<lambda>x. \<not> stores_to w x) xs"
    by simp_all
  from Cons.IH [OF xs run_op_entry [OF x Cons.prems(2)]] show ?case by simp
qed

text \<open>
  C2 (a value stored via \<open>setCache\<close> and read via \<open>getFromCache\<close> less than the ttl after
  the store is returned unchanged, provided the key was not evicted in between). Between
  the store at \<open>t0\<close> and the read at \<open>t1\<close> any cache operations may run, except another
  store to the same key; if the key is still present, the read returns exactly the stored
  value and leaves the cache as it was.
\<close>

theorem cache_read_after_store:
  assumes "list_all (\<lambda>x. \<not> stores_to w x) ops"
      and "Map_get (cache (run_ops (setCache t0 p w v) ops)) w \<noteq> None"
      and "t1 - t0 < cacheTTL p"
  shows "getFromCache t1 (run_ops (setCache t0 p w v) ops) w =
           (Some v, run_ops (setCache t0 p w v) ops)"
proof -
  let ?e = "\<lparr>data = v, timestamp = t0, ttl = cacheTTL p\<rparr>"
  let ?q = "run_ops (setCache t0 p w v) ops"
  from run_ops_entry [OF assms(1) setCache_get_same [of t0 p w v]] assms(2)
  have "Map_get (cache ?q) w = Some ?e" by blast
  from getFromCache_fresh [OF this, of t1] assms(3) show ?thesis by simp
qed

theorem cache_read_after_store_witness:
  "list_all (\<lambda>x. \<not> stores_to [0x68, 0x69] x)
     [SetOp 5 [0x61] (placeholder [0x61]), GetOp 7 [0x61], GetOp 8 [0x68, 0x69]] \<and>
   Map_get (cache (run_ops
       (setCache 0 \<lparr>apiKey = [0x6B], cache = [], cacheTTL = 1000, sent = []\<rparr> [0x68, 0x69]
          \<lparr>explain = [0x4F60, 0x597D], source = ''ai-translation''\<rparr>)
       [SetOp 5 [0x61] (placeholder [0x61]), GetOp 7 [0x61], GetOp 8 [0x68, 0x69]]))
     [0x68, 0x69] \<noteq> None \<and>
   (999 :: int) - 0 < 1000 \<and>
   fst (getFromCache 999 (run_ops
       (setCache 0 \<lparr>apiKey = [0x6B], cache = [], cacheTTL = 1000, sent = []\<rparr> [0x68, 0x69]
          \<lparr>explain = [0x4F60, 0x597D], source = ''ai-translation''\<rparr>)
       [SetOp 5 [0x61] (placeholder [0x61]), GetOp 7 [0x61], GetOp 8 [0x68, 0x69]])
     [0x68, 0x69]) = Some \<lparr>explain = [0x4F60, 0x597D], source = ''ai-translation''\<rparr>"
proof -
  let ?p = "\<lparr>apiKey = [0x6B], cache = [], cacheTTL = 1000, sent = []\<rparr>"
  let ?ops = "[SetOp 5 [0x61] (placeholder [0x61]), GetOp 7 [0x61], GetOp 8 [0x68, 0x69]]"
  let ?v = "\<lparr>explain = [0x4F60, 0x597D], source = ''ai-translation''\<rparr>"
  have h1: "list_all (\<lambda>x. \<not> stores_to [0x68, 0x69] x) ?ops" by simp
  have h2: "Map_get (cache (run_ops (setCache 0 ?p [0x68, 0x69] ?v) ?ops)) [0x68, 0x69] \<noteq> None"
    by (simp add: setCache_def getFromCache_def Map_get_def Map_size_def Map_delete_def)
  have h3: "(999 :: int) - 0 < cacheTTL ?p" by simp
  from cache_read_after_store [OF h1 h2 h3] h1 h2 show ?thesis by simp
qed

section \<open>The paths through \<open>getMeaning\<close>\<close>

lemma getMeaning_invalid:
  "getMeaning h env p None = (Err ERR_INVALID_WORD, p)"
  "getMeaning h env p (Some []) = (Err ERR_INVALID_WORD, p)"
  by (simp_all add: getMeaning_def)

lemma getMeaning_hit:
  "w \<noteq> [] \<Longrightarrow> getFromCache (now_lookup env) p (cleanWord h w) = (Some d, q) \<Longrightarrow>
   getMeaning h env p (Some w) = (Ok d True, q)"
  by (simp add: getMeaning_def)

lemma getMeaning_no_key:
  "w \<noteq> [] \<Longrightarrow> getFromCache (now_lookup env) p (cleanWord h w) = (None, q) \<Longrightarrow>
   apiKey q = [] \<Longrightarrow> getMeaning h env p (Some w) = (Err ERR_MISSING_API_KEY, q)"
  by (simp add: getMeaning_def)

lemma getMeaning_sent_on_miss:
  "w \<noteq> [] \<Longrightarrow> getFromCache (now_lookup env) p (cleanWord h w) = (None, q) \<Longrightarrow>
   apiKey q \<noteq> [] \<Longrightarrow> sent (snd (getMeaning h env p (Some w))) = sent q @ [cleanWord h w]"
  by (simp add: getMeaning_def Let_def setCache_fields split: api_outcome.splits)


lemma getMeaning_failed:
  assumes "getMeaning h env p word = (Err msg, p')"
  shows "p' = p \<or> (\<exists>w q. word = Some w \<and> w \<noteq> [] \<and>
            getFromCache (now_lookup env) p (cleanWord h w) = (None, q) \<and>
            (p' = q \<or> p' = q\<lparr>sent := sent q @ [cleanWord h w]\<rparr>))"
  using assms
  by (auto simp: getMeaning_def Let_def
      split: option.splits if_splits prod.splits api_outcome.splits)

text \<open>
  C3, as stated (after expiry a read returns absent and removes the entry, so the next
  \<open>getMeaning\<close> issues a fresh network call), fails when the provider has no API key: the
  entry for \<open>hi\<close> has expired, the read removes it, and \<open>getMeaning\<close> then returns the
  missing-key error with nothing sent.
\<close>

theorem expired_entry_no_call_counterexample:
  "Map_get (cache \<lparr>apiKey = [], cache = [([0x68, 0x69], \<lparr>data = placeholder [0x68, 0x69], timestamp = 0, ttl = 10\<rparr>)],
        cacheTTL = 10, sent = []\<rparr>) [0x68, 0x69]
     = Some \<lparr>data = placeholder [0x68, 0x69], timestamp = 0, ttl = 10\<rparr> \<and>
   (0 :: int) + 10 \<le> 10 \<and>
   getFromCache 10 \<lparr>apiKey = [], cache = [([0x68, 0x69], \<lparr>data = placeholder [0x68, 0x69], timestamp = 0, ttl = 10\<rparr>)],
        cacheTTL = 10, sent = []\<rparr> [0x68, 0x69]
     = (None, \<lparr>apiKey = [], cache = [], cacheTTL = 10, sent = []\<rparr>) \<and>
   getMeaning ascii_host \<lparr>now_lookup = 11, response = Returns \<lparr>success = True, content = Some [0x4F60, 0x597D], error = None\<rparr>, now_store = 12\<rparr>
       \<lparr>apiKey = [], cache = [], cacheTTL = 10, sent = []\<rparr> (Some [0x68, 0x69])
     = (Err ERR_MISSING_API_KEY, \<lparr>apiKey = [], cache = [], cacheTTL = 10, sent = []\<rparr>)"
  by (simp add: getMeaning_def getFromCache_def Map_get_def Map_delete_def cleanWord_def
      ascii_host_def asciiLower_def trim_def isWhiteSpace_def)

text \<open>
  C3, amended: when the entry of \<open>w\<close> has expired (\<open>now \<ge> createdAt + ttl\<close>), the read
  returns absent and removes the entry; a following \<open>getMeaning\<close> for a word that cleans to
  \<open>w\<close> misses the cache, and then issues exactly one network call for \<open>w\<close> when an API key
  is configured, and returns the missing-key error without a call when none is.
\<close>

theorem expired_entry_is_miss:
  assumes "Map_get (cache p) w = Some e" and "timestamp e + ttl e \<le> now"
      and "word \<noteq> []" and "cleanWord h word = w"
  shows "getFromCache now p w = (None, p\<lparr>cache := Map_delete (cache p) w\<rparr>) \<and>
         getFromCache (now_lookup env) (p\<lparr>cache := Map_delete (cache p) w\<rparr>) w =
           (None, p\<lparr>cache := Map_delete (cache p) w\<rparr>) \<and>
         (if apiKey p = [] then
            getMeaning h env (p\<lparr>cache := Map_delete (cache p) w\<rparr>) (Some word) =
              (Err ERR_MISSING_API_KEY, p\<lparr>cache := Map_delete (cache p) w\<rparr>)
          else
            sent (snd (getMeaning h env (p\<lparr>cache := Map_delete (cache p) w\<rparr>) (Some word))) =
              sent p @ [w])"
proof -
  let ?q = "p\<lparr>cache := Map_delete (cache p) w\<rparr>"
  have 1: "getFromCache now p w = (None, ?q)"
    using assms(1,2) by (simp add: getFromCache_def)
  have "Map_get (cache ?q) w = None" by (simp add: Map_get_delete_same)
  then have 3: "getFromCache (now_lookup env) ?q (cleanWord h word) = (None, ?q)"
    unfolding assms(4) by (rule getFromCache_absent)
  have 4: "getMeaning h env ?q (Some word) = (Err ERR_MISSING_API_KEY, ?q)" if "apiKey p = []"
    using getMeaning_no_key [OF assms(3) 3] that by simp
  have 5: "sent (snd (getMeaning h env ?q (Some word))) = sent p @ [w]" if "apiKey p \<noteq> []"
    using getMeaning_sent_on_miss [OF assms(3) 3] that assms(4) by simp
  show ?thesis
  proof (cases "apiKey p = []")
    case True
    with 1 3 4 show ?thesis unfolding assms(4) by simp
  next
    case False
    with 1 3 5 show ?thesis unfolding assms(4) by simp
  qed
qed

theorem expired_entry_is_miss_witness:
  "Map_get (cache \<lparr>apiKey = [0x6B], cache = [([0x68, 0x69], \<lparr>data = placeholder [0x68, 0x69], timestamp = 0, ttl = 10\<rparr>)],
        cacheTTL = 10, sent = []\<rparr>) [0x68, 0x69]
     = Some \<lparr>data = placeholder [0x68, 0x69], timestamp = 0, ttl = 10\<rparr> \<and>
   (0 :: int) + 10 \<le> 10 \<and>
   [0x48, 0x69] \<noteq> ([] :: jsstring) \<and> cleanWord ascii_host [0x48, 0x69] = [0x68, 0x69] \<and>
   getFromCache 10 \<lparr>apiKey = [0x6B], cache = [([0x68, 0x69], \<lparr>data = placeholder [0x68, 0x69], timestamp = 0, ttl = 10\<rparr>)],
        cacheTTL = 10, sent = []\<rparr> [0x68, 0x69]
     = (None, \<lparr>apiKey = [0x6B], cache = [], cacheTTL = 10, sent = []\<rparr>) \<and>
   sent (snd (getMeaning ascii_host
       \<lparr>now_lookup = 11, response = Returns \<lparr>success = True, content = Some [0x4F60, 0x597D], error = None\<rparr>, now_store = 12\<rparr>
       \<lparr>apiKey = [0x6B], cache = [], cacheTTL = 10, sent = []\<rparr> (Some [0x48, 0x69]))) = [[0x68, 0x69]]"
proof -
  let ?e = "\<lparr>data = placeholder [0x68, 0x69], timestamp = 0, ttl = 10\<rparr>"
  let ?p = "\<lparr>apiKey = [0x6B], cache = [([0x68, 0x69], ?e)], cacheTTL = 10, sent = []\<rparr>"
  let ?env = "\<lparr>now_lookup = 11, response = Returns \<lparr>success = True, content = Some [0x4F60, 0x597D], error = None\<rparr>, now_store = 12\<rparr>"
  have h1: "Map_get (cache ?p) [0x68, 0x69] = Some ?e" by (simp add: Map_get_def)
  have h2: "timestamp ?e + ttl ?e \<le> 10" by simp
  have h3: "[0x48, 0x69] \<noteq> ([] :: jsstring)" by simp
  have h4: "cleanWord ascii_host [0x48, 0x69] = [0x68, 0x69]"
    by (simp add: cleanWord_def ascii_host_def asciiLower_def trim_def isWhiteSpace_def)
  have d: "Map_delete (cache ?p) [0x68, 0x69] = []" by (simp add: Map_delete_def)
  from expired_entry_is_miss [OF h1 h2 h3 h4, of ?env] h1 h4 d show ?thesis by simp
qed




text \<open>
  C5 (the cache is consulted before the API key is checked). For a word that passes the
  input check: on a miss with no API key the result is the missing-key error and nothing
  is sent; on a hit the result is the cached payload with \<open>cached = true\<close>, whatever the
  API key is.
\<close>

theorem getMeaning_cache_before_key:
  assumes "w \<noteq> []"
  shows "(fst (getFromCache (now_lookup env) p (cleanWord h w)) = None \<and> apiKey p = [] \<longrightarrow>
            fst (getMeaning h env p (Some w)) = Err ERR_MISSING_API_KEY \<and>
            sent (snd (getMeaning h env p (Some w))) = sent p) \<and>
         (\<forall>d. fst (getFromCache (now_lookup env) p (cleanWord h w)) = Some d \<longrightarrow>
            getMeaning h env p (Some w) = (Ok d True, p))"
proof -
  obtain r q where g: "getFromCache (now_lookup env) p (cleanWord h w) = (r, q)"
    by (cases "getFromCache (now_lookup env) p (cleanWord h w)")
  note f = getFromCache_fields [OF g]
  have miss: "fst (getMeaning h env p (Some w)) = Err ERR_MISSING_API_KEY \<and>
      sent (snd (getMeaning h env p (Some w))) = sent p" if "r = None" "apiKey p = []"
    using getMeaning_no_key [OF assms, of env p h q] g that f by simp
  have hit: "getMeaning h env p (Some w) = (Ok d True, p)" if "r = Some d" for d
  proof -
    have "q = p" using g that by (auto simp: getFromCache_def split: option.splits if_splits)
    then show ?thesis using getMeaning_hit [OF assms, of env p h d q] g that by simp
  qed
  show ?thesis using miss hit g by simp
qed

theorem getMeaning_cache_before_key_witness:
  "[0x48, 0x69] \<noteq> ([] :: jsstring) \<and>
   fst (getFromCache 5 \<lparr>apiKey = [], cache = [], cacheTTL = 1000, sent = []\<rparr>
          (cleanWord ascii_host [0x48, 0x69])) = None \<and>
   apiKey \<lparr>apiKey = [], cache = [], cacheTTL = 1000, sent = []\<rparr> = [] \<and>
   fst (getMeaning ascii_host \<lparr>now_lookup = 5, response = Throws None, now_store = 6\<rparr>
          \<lparr>apiKey = [], cache = [], cacheTTL = 1000, sent = []\<rparr> (Some [0x48, 0x69])) =
     Err ERR_MISSING_API_KEY \<and>
   sent (snd (getMeaning ascii_host \<lparr>now_lookup = 5, response = Throws None, now_store = 6\<rparr>
          \<lparr>apiKey = [], cache = [], cacheTTL = 1000, sent = []\<rparr> (Some [0x48, 0x69]))) = [] \<and>
   fst (getFromCache 5
          \<lparr>apiKey = [], cache = [([0x68, 0x69], \<lparr>data = placeholder [0x68, 0x69], timestamp = 0, ttl = 1000\<rparr>)],
           cacheTTL = 1000, sent = []\<rparr>
          (cleanWord ascii_host [0x48, 0x69])) = Some (placeholder [0x68, 0x69]) \<and>
   getMeaning ascii_host \<lparr>now_lookup = 5, response = Throws None, now_store = 6\<rparr>
          \<lparr>apiKey = [], cache = [([0x68, 0x69], \<lparr>data = placeholder [0x68, 0x69], timestamp = 0, ttl = 1000\<rparr>)],
           cacheTTL = 1000, sent = []\<rparr> (Some [0x48, 0x69]) =
     (Ok (placeholder [0x68, 0x69]) True,
      \<lparr>apiKey = [], cache = [([0x68, 0x69], \<lparr>data = placeholder [0x68, 0x69], timestamp = 0, ttl = 1000\<rparr>)],
           cacheTTL = 1000, sent = []\<rparr>)"
proof -
  let ?env = "\<lparr>now_lookup = 5, response = Throws None, now_store = 6\<rparr>"
  let ?p = "\<lparr>apiKey = [], cache = [], cacheTTL = 1000, sent = []\<rparr>"
  let ?q = "\<lparr>apiKey = [], cache = [([0x68, 0x69], \<lparr>data = placeholder [0x68, 0x69], timestamp = 0, ttl = 1000\<rparr>)],
           cacheTTL = 1000, sent = []\<rparr>"
  have h: "[0x48, 0x69] \<noteq> ([] :: jsstring)" by simp
  have c: "cleanWord ascii_host [0x48, 0x69] = [0x68, 0x69]"
    by (simp add: cleanWord_def ascii_host_def asciiLower_def trim_def isWhiteSpace_def)
  have m: "fst (getFromCache 5 ?p (cleanWord ascii_host [0x48, 0x69])) = None"
    by (simp add: c getFromCache_def Map_get_def)
  have k: "fst (getFromCache 5 ?q (cleanWord ascii_host [0x48, 0x69])) = Some (placeholder [0x68, 0x69])"
    by (simp add: c getFromCache_def Map_get_def)
  from getMeaning_cache_before_key [OF h, of ?env ?p ascii_host] m
  have 1: "fst (getMeaning ascii_host ?env ?p (Some [0x48, 0x69])) = Err ERR_MISSING_API_KEY \<and>
      sent (snd (getMeaning ascii_host ?env ?p (Some [0x48, 0x69]))) = []" by simp
  from getMeaning_cache_before_key [OF h, of ?env ?q ascii_host] k
  have 2: "getMeaning ascii_host ?env ?q (Some [0x48, 0x69]) = (Ok (placeholder [0x68, 0x69]) True, ?q)"
    by simp
  from h m k 1 2 show ?thesis by simp
qed

section \<open>The stored explanation\<close>






text \<open>
  C10 (a failed \<open>getMeaning\<close> inserts nothing). Whatever the reason of the failure, the
  cache afterwards is the cache before, or the cache before without the entry of the
  queried key, and that only when this entry had expired at the lookup.
\<close>

theorem getMeaning_failure_cache:
  assumes "getMeaning h env p word = (Err msg, p')"
  shows "cache p' = cache p \<or>
         (\<exists>w e. word = Some w \<and> Map_get (cache p) (cleanWord h w) = Some e \<and>
                \<not> now_lookup env - timestamp e < ttl e \<and>
                cache p' = Map_delete (cache p) (cleanWord h w))"
proof -
  from getMeaning_failed [OF assms] show ?thesis
  proof
    assume "p' = p"
    then show ?thesis by simp
  next
    assume "\<exists>w q. word = Some w \<and> w \<noteq> [] \<and>
        getFromCache (now_lookup env) p (cleanWord h w) = (None, q) \<and>
        (p' = q \<or> p' = q\<lparr>sent := sent q @ [cleanWord h w]\<rparr>)"
    then obtain w q where w: "word = Some w" and
      q: "getFromCache (now_lookup env) p (cleanWord h w) = (None, q)" and
      p': "cache p' = cache q" by auto
    from q show ?thesis using w p'
      by (auto simp: getFromCache_def split: option.splits if_splits)
  qed
qed

theorem getMeaning_failure_cache_witness:
  "getMeaning ascii_host
     \<lparr>now_lookup = 20, response = Returns \<lparr>success = False, content = None, error = None\<rparr>, now_store = 21\<rparr>
     \<lparr>apiKey = [0x6B],
      cache = [([0x68, 0x69], \<lparr>data = placeholder [0x68, 0x69], timestamp = 0, ttl = 10\<rparr>)],
      cacheTTL = 10, sent = []\<rparr> (Some [0x48, 0x69]) =
     (Err ERR_REQUEST_FAILED, \<lparr>apiKey = [0x6B], cache = [], cacheTTL = 10, sent = [[0x68, 0x69]]\<rparr>) \<and>
   (cache \<lparr>apiKey = [0x6B], cache = [], cacheTTL = 10, sent = [[0x68, 0x69]]\<rparr> =
      cache \<lparr>apiKey = [0x6B],
        cache = [([0x68, 0x69], \<lparr>data = placeholder [0x68, 0x69], timestamp = 0, ttl = 10\<rparr>)],
        cacheTTL = 10, sent = []\<rparr> \<or>
    (\<exists>w e. Some [0x48, 0x69] = Some w \<and>
       Map_get (cache \<lparr>apiKey = [0x6B],
           cache = [([0x68, 0x69], \<lparr>data = placeholder [0x68, 0x69], timestamp = 0, ttl = 10\<rparr>)],
           cacheTTL = 10, sent = []\<rparr>) (cleanWord ascii_host w) = Some e \<and>
       \<not> 20 - timestamp e < ttl e \<and>
       cache \<lparr>apiKey = [0x6B], cache = [], cacheTTL = 10, sent = [[0x68, 0x69]]\<rparr> =
         Map_delete (cache \<lparr>apiKey = [0x6B],
           cache = [([0x68, 0x69], \<lparr>data = placeholder [0x68, 0x69], timestamp = 0, ttl = 10\<rparr>)],
           cacheTTL = 10, sent = []\<rparr>) (cleanWord ascii_host w)))"
proof -
  let ?env = "\<lparr>now_lookup = 20, response = Returns \<lparr>success = False, content = None, error = None\<rparr>, now_store = 21\<rparr>"
  let ?p = "\<lparr>apiKey = [0x6B],
      cache = [([0x68, 0x69], \<lparr>data = placeholder [0x68, 0x69], timestamp = 0, ttl = 10\<rparr>)],
      cacheTTL = 10, sent = []\<rparr>"
  let ?p' = "\<lparr>apiKey = [0x6B], cache = [], cacheTTL = 10, sent = [[0x68, 0x69]]\<rparr>"
  have c: "cleanWord ascii_host [0x48, 0x69] = [0x68, 0x69]"
    by (simp add: cleanWord_def ascii_host_def asciiLower_def trim_def isWhiteSpace_def)
  have h1: "getMeaning ascii_host ?env ?p (Some [0x48, 0x69]) = (Err ERR_REQUEST_FAILED, ?p')"
    by (simp add: getMeaning_def c getFromCache_def Map_get_def Map_delete_def Let_def)
  from getMeaning_failure_cache [OF h1] h1 show ?thesis by simp
qed

section \<open>Notifications of the background script\<close>






section \<open>The tooltip markup\<close>

text \<open>
  C7 (\<open>createMainTooltipHTML\<close> branches on the number of tokens). When the text splits
  into more than one token the result is the phrase view, whose \<open>wxt-phrase-words\<close>
  element holds the interactive word list: one entry per token, in order. When it does
  not, and no translation is attached, the result is the word view, whose meaning
  container holds exactly the loading placeholder.
\<close>

theorem createMainTooltipHTML_views:
  "(length (extractWords r (ed_word ed)) > 1 \<longrightarrow>
      createMainTooltipHTML r ed =
        createPhraseTooltipHTML r (ed_word ed) (extractWords r (ed_word ed)) \<and>
      querySelector ''wxt-phrase-words'' (kids (createMainTooltipHTML r ed)) =
        Some (Element ''div'' [''wxt-phrase-words''] [] None
                (map interactiveWordEntry (extractWords r (ed_word ed)))) \<and>
      length (createInteractiveWordList (extractWords r (ed_word ed))) =
        length (extractWords r (ed_word ed))) \<and>
   (\<not> length (extractWords r (ed_word ed)) > 1 \<and>
    (case ed_phonetic ed of None \<Rightarrow> None | Some ph \<Rightarrow> aiTranslation ph) = None \<longrightarrow>
      createMainTooltipHTML r ed = createWordTooltipHTML r ed \<and>
      querySelector ''wxt-meaning-container'' (kids (createMainTooltipHTML r ed)) =
        Some (Element ''div'' [''wxt-meaning-container''] [] None
                [Element ''div'' [''wxt-meaning-loading''] [] None [Text LOADING_MEANING]]))"
  by (auto simp: createMainTooltipHTML_def createPhraseTooltipHTML_def createWordTooltipHTML_def
      createInteractiveWordList_def Let_def playButton_def split: option.splits list.splits)

theorem createMainTooltipHTML_views_witness:
  "extractWords plain_renderer [0x62, 0x72, 0x65, 0x61, 0x6B, 0x20, 0x61, 0x20, 0x6C, 0x65, 0x67] =
     [[0x62, 0x72, 0x65, 0x61, 0x6B], [0x61], [0x6C, 0x65, 0x67]] \<and>
   querySelector ''wxt-phrase-words''
     (kids (createMainTooltipHTML plain_renderer
        \<lparr>ed_word = [0x62, 0x72, 0x65, 0x61, 0x6B, 0x20, 0x61, 0x20, 0x6C, 0x65, 0x67],
         ed_phonetic = None\<rparr>)) =
     Some (Element ''div'' [''wxt-phrase-words''] [] None
        [interactiveWordEntry [0x62, 0x72, 0x65, 0x61, 0x6B], interactiveWordEntry [0x61],
         interactiveWordEntry [0x6C, 0x65, 0x67]]) \<and>
   extractWords plain_renderer [0x68, 0x65, 0x6C, 0x6C, 0x6F] = [[0x68, 0x65, 0x6C, 0x6C, 0x6F]] \<and>
   querySelector ''wxt-meaning-container''
     (kids (createMainTooltipHTML plain_renderer
        \<lparr>ed_word = [0x68, 0x65, 0x6C, 0x6C, 0x6F], ed_phonetic = None\<rparr>)) =
     Some (Element ''div'' [''wxt-meaning-container''] [] None
        [Element ''div'' [''wxt-meaning-loading''] [] None [Text LOADING_MEANING]])"
proof -
  let ?phrase = "[0x62, 0x72, 0x65, 0x61, 0x6B, 0x20, 0x61, 0x20, 0x6C, 0x65, 0x67] :: jsstring"
  let ?hello = "[0x68, 0x65, 0x6C, 0x6C, 0x6F] :: jsstring"
  have p: "extractWords plain_renderer ?phrase = [[0x62, 0x72, 0x65, 0x61, 0x6B], [0x61], [0x6C, 0x65, 0x67]]"
    by (simp add: plain_renderer_def isWhiteSpace_def)
  have h: "extractWords plain_renderer ?hello = [?hello]"
    by (simp add: plain_renderer_def isWhiteSpace_def)
  let ?pd = "\<lparr>ed_word = ?phrase, ed_phonetic = None\<rparr>"
  let ?hd = "\<lparr>ed_word = ?hello, ed_phonetic = None\<rparr>"
  have g1: "length (extractWords plain_renderer (ed_word ?pd)) > 1" using p by simp
  from createMainTooltipHTML_views [of plain_renderer ?pd] g1
  have "querySelector ''wxt-phrase-words'' (kids (createMainTooltipHTML plain_renderer ?pd)) =
     Some (Element ''div'' [''wxt-phrase-words''] [] None
        (map interactiveWordEntry (extractWords plain_renderer (ed_word ?pd))))"
    by blast
  then have 1: "querySelector ''wxt-phrase-words'' (kids (createMainTooltipHTML plain_renderer ?pd)) =
     Some (Element ''div'' [''wxt-phrase-words''] [] None
        [interactiveWordEntry [0x62, 0x72, 0x65, 0x61, 0x6B], interactiveWordEntry [0x61],
         interactiveWordEntry [0x6C, 0x65, 0x67]])"
    using p by simp
  have g2: "\<not> length (extractWords plain_renderer (ed_word ?hd)) > 1 \<and>
      (case ed_phonetic ?hd of None \<Rightarrow> None | Some ph \<Rightarrow> aiTranslation ph) = None"
    using h by simp
  from createMainTooltipHTML_views [of plain_renderer ?hd] g2
  have 2: "querySelector ''wxt-meaning-container'' (kids (createMainTooltipHTML plain_renderer ?hd)) =
     Some (Element ''div'' [''wxt-meaning-container''] [] None
        [Element ''div'' [''wxt-meaning-loading''] [] None [Text LOADING_MEANING]])"
    by blast
  from p h 1 2 show ?thesis by simp
qed

section \<open>Queries and mutations of a forest\<close>



















text \<open>Every word tooltip and every nested word tooltip the renderer builds has a meaning
  container with at most one loading placeholder and at most one meaning-text
  element.\<close>

lemma word_tooltip_container:
  "\<exists>c. querySelector ''wxt-meaning-container'' (kids (createWordTooltipHTML r ed)) = Some c \<and>
       countClass ''wxt-meaning-loading'' (kids c) \<le> 1 \<and>
       countClass ''wxt-meaning-text'' (kids c) \<le> 1"
  by (auto simp: createWordTooltipHTML_def Let_def playButton_def split: option.splits list.splits)

lemma nested_tooltip_container:
  "\<exists>c. querySelector ''wxt-meaning-container''
         (kids (createNestedWordTooltipHTML r w phoneticText hasError errorMessage)) = Some c \<and>
       countClass ''wxt-meaning-loading'' (kids c) \<le> 1 \<and>
       countClass ''wxt-meaning-text'' (kids c) \<le> 1"
  by (auto simp: createNestedWordTooltipHTML_def Let_def accentGroup_def split: option.splits)

section \<open>Patching the meaning into a tooltip\<close>



end
